theory Spec2Isabelle
  imports Main "HOL-Library.Word"
begin

unbundle bit_operations_syntax

section \<open>Bytes, errors and Python primitives\<close>

text \<open>
  Python \<open>bytes\<close> are lists of 8-bit words, Python \<open>str\<close> is \<open>string\<close>, Python \<open>int\<close>
  is \<open>int\<close> (or \<open>nat\<close> where the source only ever holds a non-negative value).
  Every \<open>raise\<close> is a value \<open>Inl e\<close> of the result type \<open>error + 'a\<close>.
  \<open>BTClibValueError\<close> is the typed error of the library; its argument names the
  message. \<open>KeyError\<close> and \<open>OverflowError\<close> are the Python built-in exceptions that
  a dictionary lookup and \<open>int.to_bytes\<close> raise.
\<close>

type_synonym byte = "8 word"
type_synonym octets = "byte list"

datatype err_msg =
    InvalidBase58Char char
  | NotEnoughBytesForChecksum nat
  | InvalidChecksum
  | InvalidDecodedSize nat
  | InvalidSize nat
  | InvalidBase58AddressPrefix octets
  | InvalidNetworkBase58AddressPrefix string octets
  | InvalidWitnessProgramLengthV0 nat
  | InvalidWitnessProgramLength nat
  | InvalidWitnessVersion int
  | PrvKeyNotInRange int
  | NotAPrvKey
  | InvalidWifPrefix octets
  | NotANetworkWif string
  | MissingTrailing01
  | WrongWifSize nat
  | CompressionMismatch
  | NotPrvOrPubKey "bool option"
  | InvalidNulldataPayloadLength nat
  | InvalidP2msPayload
  | InvalidP2msLength nat
  | MissingFinalCheckmultisig
  | InvalidMInMofN int
  | InvalidNInMofN int
  | InvalidMofN int int
  | InvalidKeyInP2ms
  | InvalidP2msScriptPubKeySize
  | UnknownScriptPubKeyType string

datatype error = BTClibValueError err_msg | KeyError string | OverflowError

definition bindE :: "error + 'a \<Rightarrow> ('a \<Rightarrow> error + 'b) \<Rightarrow> error + 'b" where
  "bindE m f = (case m of Inl e \<Rightarrow> Inl e | Inr x \<Rightarrow> f x)"

text \<open>\<open>int.from_bytes(b, byteorder="big", signed=False)\<close>.\<close>

definition int_from_bytes :: "octets \<Rightarrow> nat" where
  "int_from_bytes bs = foldl (\<lambda>acc b. acc * 256 + unat b) 0 bs"

text \<open>
  \<open>i.to_bytes(size, byteorder="big", signed=False)\<close>: the \<open>size\<close> base-256 digits of
  \<open>i\<close>, most significant first; Python raises \<open>OverflowError\<close> for a negative \<open>i\<close> or
  one that does not fit.
\<close>

fun to_bytes_big :: "nat \<Rightarrow> nat \<Rightarrow> octets" where
  "to_bytes_big 0 i = []"
| "to_bytes_big (Suc k) i = to_bytes_big k (i div 256) @ [of_nat (i mod 256)]"

definition int_to_bytes :: "int \<Rightarrow> nat \<Rightarrow> error + octets" where
  "int_to_bytes i sz =
     (if i < 0 \<or> 256 ^ sz \<le> i then Inl OverflowError else Inr (to_bytes_big sz (nat i)))"

text \<open>\<open>i.bit_length()\<close> for a non-negative \<open>i\<close>.\<close>

fun bit_length :: "nat \<Rightarrow> nat" where
  "bit_length i = (if i = 0 then 0 else Suc (bit_length (i div 2)))"

declare bit_length.simps [simp del]

text \<open>
  \<open>str.strip()\<close>: removes leading and trailing whitespace; the ASCII characters for
  which \<open>str.isspace\<close> holds are tab, line feed, vertical tab, form feed, carriage
  return, the four separators 0x1c..0x1f and the space.
\<close>

definition isspace :: "char \<Rightarrow> bool" where
  "isspace c = (let k = of_char c :: nat in (9 \<le> k \<and> k \<le> 13) \<or> (28 \<le> k \<and> k \<le> 32))"

definition strip :: "string \<Rightarrow> string" where
  "strip s = rev (dropWhile isspace (rev (dropWhile isspace s)))"

text \<open>
  \<open>bytes_from_octets(o, out_size)\<close> of \<open>btclib.utils\<close>. Octets are modelled as bytes
  already (a hexadecimal string stands for the bytes it spells). The allowed sizes are
  a list; the empty list is Python's \<open>None\<close> (no size check).

  Modelled from the spec: \<open>bytes_from_octets\<close> is not among the sources; the tests
  expect the typed error "invalid size" for a payload of the wrong length.
\<close>

definition bytes_from_octets :: "octets \<Rightarrow> nat list \<Rightarrow> error + octets" where
  "bytes_from_octets bs sizes =
     (if sizes = [] \<or> length bs \<in> set sizes then Inr bs
      else Inl (BTClibValueError (InvalidSize (length bs))))"

section \<open>Hash functions\<close>

text \<open>
  The source calls \<open>hashlib\<close> through \<open>btclib.utils\<close>: \<open>sha256\<close>,
  \<open>hash160 = RIPEMD160 \<circ> SHA256\<close> and the double SHA-256 of the Base58Check
  checksum. They are written out here after FIPS 180-4 and the RIPEMD-160
  specification, so that the test vectors of the repository can be evaluated.
  A 32-bit word is a \<open>nat\<close> below \<open>2 ^ 32\<close>, with the wrap-around of every addition
  written out.
\<close>

subsection \<open>32-bit words\<close>

definition add32 :: "nat \<Rightarrow> nat \<Rightarrow> nat" where
  "add32 x y = (x + y) mod 2 ^ 32"

definition not32 :: "nat \<Rightarrow> nat" where
  "not32 x = 2 ^ 32 - 1 - x mod 2 ^ 32"

definition shr :: "nat \<Rightarrow> nat \<Rightarrow> nat" where
  "shr n x = x div 2 ^ n"

definition rotr :: "nat \<Rightarrow> nat \<Rightarrow> nat" where
  "rotr n x = x div 2 ^ n + (x mod 2 ^ n) * 2 ^ (32 - n)"

definition rol :: "nat \<Rightarrow> nat \<Rightarrow> nat" where
  "rol n x = (x * 2 ^ n) mod 2 ^ 32 + x div 2 ^ (32 - n)"

fun be32 :: "octets \<Rightarrow> nat list" where
  "be32 (a # b # c # d # r) =
     (((unat a * 256 + unat b) * 256 + unat c) * 256 + unat d) # be32 r"
| "be32 _ = []"

fun le32 :: "octets \<Rightarrow> nat list" where
  "le32 (a # b # c # d # r) =
     (((unat d * 256 + unat c) * 256 + unat b) * 256 + unat a) # le32 r"
| "le32 _ = []"

definition bytes_of_u32 :: "nat \<Rightarrow> octets" where
  "bytes_of_u32 w = [of_nat (w div 2 ^ 24 mod 256), of_nat (w div 2 ^ 16 mod 256),
                     of_nat (w div 2 ^ 8 mod 256), of_nat (w mod 256)]"

definition bytes_of_u32_le :: "nat \<Rightarrow> octets" where
  "bytes_of_u32_le w = rev (bytes_of_u32 w)"

text \<open>
  Padding, shared by both hash functions up to the byte order of the length: the
  byte 0x80, zero bytes up to 56 modulo 64, and the bit length in 8 bytes.
\<close>

definition pad_zeros :: "nat \<Rightarrow> nat" where
  "pad_zeros len = (119 - len mod 64) mod 64"

fun blocks :: "nat \<Rightarrow> octets \<Rightarrow> octets list" where
  "blocks 0 bs = []"
| "blocks (Suc k) bs = take 64 bs # blocks k (drop 64 bs)"

subsection \<open>SHA-256\<close>

definition Ch :: "nat \<Rightarrow> nat \<Rightarrow> nat \<Rightarrow> nat" where
  "Ch x y z = (x AND y) XOR (not32 x AND z)"

definition Maj :: "nat \<Rightarrow> nat \<Rightarrow> nat \<Rightarrow> nat" where
  "Maj x y z = (x AND y) XOR (x AND z) XOR (y AND z)"

definition Sigma0 :: "nat \<Rightarrow> nat" where
  "Sigma0 x = rotr 2 x XOR rotr 13 x XOR rotr 22 x"

definition Sigma1 :: "nat \<Rightarrow> nat" where
  "Sigma1 x = rotr 6 x XOR rotr 11 x XOR rotr 25 x"

definition sigma0 :: "nat \<Rightarrow> nat" where
  "sigma0 x = rotr 7 x XOR rotr 18 x XOR shr 3 x"

definition sigma1 :: "nat \<Rightarrow> nat" where
  "sigma1 x = rotr 17 x XOR rotr 19 x XOR shr 10 x"

text \<open>The round constants, one row for each group of eight rounds.\<close>

definition K256 :: "nat list" where
  "K256 = concat
    [[0x428a2f98, 0x71374491, 0xb5c0fbcf, 0xe9b5dba5, 0x3956c25b, 0x59f111f1, 0x923f82a4, 0xab1c5ed5],
     [0xd807aa98, 0x12835b01, 0x243185be, 0x550c7dc3, 0x72be5d74, 0x80deb1fe, 0x9bdc06a7, 0xc19bf174],
     [0xe49b69c1, 0xefbe4786, 0x0fc19dc6, 0x240ca1cc, 0x2de92c6f, 0x4a7484aa, 0x5cb0a9dc, 0x76f988da],
     [0x983e5152, 0xa831c66d, 0xb00327c8, 0xbf597fc7, 0xc6e00bf3, 0xd5a79147, 0x06ca6351, 0x14292967],
     [0x27b70a85, 0x2e1b2138, 0x4d2c6dfc, 0x53380d13, 0x650a7354, 0x766a0abb, 0x81c2c92e, 0x92722c85],
     [0xa2bfe8a1, 0xa81a664b, 0xc24b8b70, 0xc76c51a3, 0xd192e819, 0xd6990624, 0xf40e3585, 0x106aa070],
     [0x19a4c116, 0x1e376c08, 0x2748774c, 0x34b0bcb5, 0x391c0cb3, 0x4ed8aa4a, 0x5b9cca4f, 0x682e6ff3],
     [0x748f82ee, 0x78a5636f, 0x84c87814, 0x8cc70208, 0x90befffa, 0xa4506ceb, 0xbef9a3f7, 0xc67178f2]]"

type_synonym sha_state = "nat \<times> nat \<times> nat \<times> nat \<times> nat \<times> nat \<times> nat \<times> nat"

definition H256 :: sha_state where
  "H256 = (0x6a09e667, 0xbb67ae85, 0x3c6ef372, 0xa54ff53a,
           0x510e527f, 0x9b05688c, 0x1f83d9ab, 0x5be0cd19)"

text \<open>The message schedule is built most recent word first and reversed at the end.\<close>

definition next_w :: "nat list \<Rightarrow> nat" where
  "next_w ws = (sigma1 (ws ! 1) + ws ! 6 + sigma0 (ws ! 14) + ws ! 15) mod 2 ^ 32"

definition schedule :: "nat list \<Rightarrow> nat list" where
  "schedule ws = rev (fold (\<lambda>_ acc. next_w acc # acc) [16..<64] (rev ws))"

fun sha_step :: "sha_state \<Rightarrow> nat \<Rightarrow> nat \<Rightarrow> sha_state" where
  "sha_step (a, b, c, d, e, f, g, h) t1 t2 = (add32 t1 t2, a, b, c, add32 d t1, e, f, g)"

fun sha_round :: "sha_state \<Rightarrow> nat \<Rightarrow> nat \<Rightarrow> sha_state" where
  "sha_round (a, b, c, d, e, f, g, h) k w =
     sha_step (a, b, c, d, e, f, g, h)
       ((h + Sigma1 e + Ch e f g + k + w) mod 2 ^ 32) (add32 (Sigma0 a) (Maj a b c))"

fun rounds :: "sha_state \<Rightarrow> nat list \<Rightarrow> nat list \<Rightarrow> sha_state" where
  "rounds st (k # ks) (w # ws) = rounds (sha_round st k w) ks ws"
| "rounds st _ _ = st"

fun add_state :: "sha_state \<Rightarrow> sha_state \<Rightarrow> sha_state" where
  "add_state (a, b, c, d, e, f, g, h) (a', b', c', d', e', f', g', h') =
     (add32 a a', add32 b b', add32 c c', add32 d d',
      add32 e e', add32 f f', add32 g g', add32 h h')"

definition compress :: "sha_state \<Rightarrow> octets \<Rightarrow> sha_state" where
  "compress st blk = add_state st (rounds st K256 (schedule (be32 blk)))"

definition sha_pad :: "octets \<Rightarrow> octets" where
  "sha_pad m = m @ [0x80] @ replicate (pad_zeros (length m)) 0
     @ bytes_of_u32 ((8 * length m) div 2 ^ 32 mod 2 ^ 32) @ bytes_of_u32 ((8 * length m) mod 2 ^ 32)"

fun state_bytes :: "sha_state \<Rightarrow> octets" where
  "state_bytes (a, b, c, d, e, f, g, h) = concat (map bytes_of_u32 [a, b, c, d, e, f, g, h])"

definition sha256 :: "octets \<Rightarrow> octets" where
  "sha256 m = state_bytes
     (fold (\<lambda>blk st. compress st blk) (blocks (length (sha_pad m) div 64) (sha_pad m)) H256)"

definition hash256 :: "octets \<Rightarrow> octets" where
  "hash256 m = sha256 (sha256 m)"

subsection \<open>RIPEMD-160\<close>

definition rmd_f :: "nat \<Rightarrow> nat \<Rightarrow> nat \<Rightarrow> nat \<Rightarrow> nat" where
  "rmd_f j x y z =
     (if j < 16 then x XOR y XOR z
      else if j < 32 then (x AND y) OR (not32 x AND z)
      else if j < 48 then (x OR not32 y) XOR z
      else if j < 64 then (x AND z) OR (y AND not32 z)
      else x XOR (y OR not32 z))"

text \<open>
  For each of the 80 steps of a line, the index of the message word it reads and the
  amount of its left rotation.
\<close>

definition rmd_left_tab :: "(nat \<times> nat) list" where
  "rmd_left_tab =
    [(0, 11), (1, 14), (2, 15), (3, 12), (4, 5), (5, 8), (6, 7), (7, 9),
     (8, 11), (9, 13), (10, 14), (11, 15), (12, 6), (13, 7), (14, 9), (15, 8),
     (7, 7), (4, 6), (13, 8), (1, 13), (10, 11), (6, 9), (15, 7), (3, 15),
     (12, 7), (0, 12), (9, 15), (5, 9), (2, 11), (14, 7), (11, 13), (8, 12),
     (3, 11), (10, 13), (14, 6), (4, 7), (9, 14), (15, 9), (8, 13), (1, 15),
     (2, 14), (7, 8), (0, 13), (6, 6), (13, 5), (11, 12), (5, 7), (12, 5),
     (1, 11), (9, 12), (11, 14), (10, 15), (0, 14), (8, 15), (12, 9), (4, 8),
     (13, 9), (3, 14), (7, 5), (15, 6), (14, 8), (5, 6), (6, 5), (2, 12),
     (4, 9), (0, 15), (5, 5), (9, 11), (7, 6), (12, 8), (2, 13), (10, 12),
     (14, 5), (1, 12), (3, 13), (8, 14), (11, 11), (6, 8), (15, 5), (13, 6)]"

definition rmd_right_tab :: "(nat \<times> nat) list" where
  "rmd_right_tab =
    [(5, 8), (14, 9), (7, 9), (0, 11), (9, 13), (2, 15), (11, 15), (4, 5),
     (13, 7), (6, 7), (15, 8), (8, 11), (1, 14), (10, 14), (3, 12), (12, 6),
     (6, 9), (11, 13), (3, 15), (7, 7), (0, 12), (13, 8), (5, 9), (10, 11),
     (14, 7), (15, 7), (8, 12), (12, 7), (4, 6), (9, 15), (1, 13), (2, 11),
     (15, 9), (5, 7), (1, 15), (3, 11), (7, 8), (14, 6), (6, 6), (9, 14),
     (11, 12), (8, 13), (12, 5), (2, 14), (10, 13), (0, 13), (4, 7), (13, 5),
     (8, 15), (6, 5), (4, 8), (1, 11), (3, 14), (11, 14), (15, 6), (0, 14),
     (5, 6), (12, 9), (2, 12), (13, 9), (9, 12), (7, 5), (10, 15), (14, 8),
     (12, 8), (15, 5), (10, 12), (4, 9), (1, 12), (5, 5), (8, 14), (7, 6),
     (6, 8), (2, 13), (13, 6), (14, 5), (0, 15), (3, 13), (9, 11), (11, 11)]"

definition rmd_k :: "nat list" where
  "rmd_k = [0, 0x5A827999, 0x6ED9EBA1, 0x8F1BBCDC, 0xA953FD4E]"

definition rmd_k' :: "nat list" where
  "rmd_k' = [0x50A28BE6, 0x5C4DD124, 0x6D703EF3, 0x7A6D76E9, 0]"

type_synonym rmd_state = "nat \<times> nat \<times> nat \<times> nat \<times> nat"

definition rmd_h0 :: rmd_state where
  "rmd_h0 = (0x67452301, 0xEFCDAB89, 0x98BADCFE, 0x10325476, 0xC3D2E1F0)"

fun rmd_step :: "rmd_state \<Rightarrow> nat \<Rightarrow> nat \<Rightarrow> rmd_state" where
  "rmd_step (a, b, c, d, e) t s = (e, add32 (rol s t) e, b, rol 10 c, d)"

fun rmd_left :: "nat list \<Rightarrow> nat \<Rightarrow> rmd_state \<Rightarrow> rmd_state" where
  "rmd_left X j (a, b, c, d, e) =
     rmd_step (a, b, c, d, e)
       ((a + rmd_f j b c d + X ! fst (rmd_left_tab ! j) + rmd_k ! (j div 16)) mod 2 ^ 32)
       (snd (rmd_left_tab ! j))"

fun rmd_right :: "nat list \<Rightarrow> nat \<Rightarrow> rmd_state \<Rightarrow> rmd_state" where
  "rmd_right X j (a, b, c, d, e) =
     rmd_step (a, b, c, d, e)
       ((a + rmd_f (79 - j) b c d + X ! fst (rmd_right_tab ! j) + rmd_k' ! (j div 16)) mod 2 ^ 32)
       (snd (rmd_right_tab ! j))"

fun rmd_combine :: "rmd_state \<Rightarrow> rmd_state \<Rightarrow> rmd_state \<Rightarrow> rmd_state" where
  "rmd_combine (h0, h1, h2, h3, h4) (a, b, c, d, e) (a', b', c', d', e') =
     ((h1 + c + d') mod 2 ^ 32, (h2 + d + e') mod 2 ^ 32, (h3 + e + a') mod 2 ^ 32,
      (h4 + a + b') mod 2 ^ 32, (h0 + b + c') mod 2 ^ 32)"

definition rmd_compress :: "rmd_state \<Rightarrow> octets \<Rightarrow> rmd_state" where
  "rmd_compress h blk =
     rmd_combine h (fold (rmd_left (le32 blk)) [0..<80] h) (fold (rmd_right (le32 blk)) [0..<80] h)"

definition rmd_pad :: "octets \<Rightarrow> octets" where
  "rmd_pad m = m @ [0x80] @ replicate (pad_zeros (length m)) 0
     @ bytes_of_u32_le ((8 * length m) mod 2 ^ 32) @ bytes_of_u32_le ((8 * length m) div 2 ^ 32 mod 2 ^ 32)"

fun rmd_state_bytes :: "rmd_state \<Rightarrow> octets" where
  "rmd_state_bytes (a, b, c, d, e) = concat (map bytes_of_u32_le [a, b, c, d, e])"

definition ripemd160 :: "octets \<Rightarrow> octets" where
  "ripemd160 m = rmd_state_bytes
     (fold (\<lambda>blk st. rmd_compress st blk) (blocks (length (rmd_pad m) div 64) (rmd_pad m)) rmd_h0)"

definition hash160 :: "octets \<Rightarrow> octets" where
  "hash160 m = ripemd160 (sha256 m)"

section \<open>Base58Check\<close>

text \<open>
  Modelled from the spec: the module \<open>btclib.base58\<close> (\<open>b58encode\<close>, \<open>b58decode\<close>) is
  not among the sources. Spec 4.1: Base58Check encode(payload) is the base-58 rendering
  of payload followed by the first four bytes of its double SHA-256; decode verifies
  the four-byte checksum and, if an expected length is given, the decoded length,
  failing otherwise; leading zero bytes map to leading '1' characters exactly.
  \<open>b58encode_raw\<close> and \<open>b58decode_raw\<close> are the conversions without checksum.
\<close>

definition digits58 :: string where
  "digits58 = ''123456789ABCDEFGHJKLMNPQRSTUVWXYZabcdefghijkmnopqrstuvwxyz''"

function b58encode_from_int :: "nat \<Rightarrow> string" where
  "b58encode_from_int i =
     (if i < 58 then [digits58 ! i]
      else b58encode_from_int (i div 58) @ [digits58 ! (i mod 58)])"
  by pat_completeness auto
termination
  by (relation "measure id") auto

declare b58encode_from_int.simps [simp del]

definition b58encode_raw :: "octets \<Rightarrow> string" where
  "b58encode_raw v =
     (let v' = dropWhile (\<lambda>b. b = 0) v
      in replicate (length v - length v') (digits58 ! 0)
         @ (if v' = [] then [] else b58encode_from_int (int_from_bytes v')))"

definition b58encode :: "octets \<Rightarrow> string" where
  "b58encode v = b58encode_raw (v @ take 4 (hash256 v))"

fun str_index :: "string \<Rightarrow> char \<Rightarrow> nat option" where
  "str_index [] c = None"
| "str_index (x # xs) c = (if x = c then Some 0 else map_option Suc (str_index xs c))"

fun b58decode_to_int :: "nat \<Rightarrow> string \<Rightarrow> error + nat" where
  "b58decode_to_int i [] = Inr i"
| "b58decode_to_int i (c # cs) =
     (case str_index digits58 c of
        None \<Rightarrow> Inl (BTClibValueError (InvalidBase58Char c))
      | Some d \<Rightarrow> b58decode_to_int (i * 58 + d) cs)"

definition b58decode_raw :: "string \<Rightarrow> error + octets" where
  "b58decode_raw v =
     (let v' = dropWhile (\<lambda>c. c = digits58 ! 0) v
      in if v' = [] then Inr (replicate (length v - length v') 0)
         else bindE (b58decode_to_int 0 v')
                (\<lambda>i. Inr (replicate (length v - length v') 0
                           @ to_bytes_big ((bit_length i + 7) div 8) i)))"

definition b58decode :: "string \<Rightarrow> nat option \<Rightarrow> error + octets" where
  "b58decode v out_size =
     bindE (b58decode_raw v) (\<lambda>result.
       if length result < 4 then Inl (BTClibValueError (NotEnoughBytesForChecksum (length result)))
       else if drop (length result - 4) result \<noteq> take 4 (hash256 (take (length result - 4) result))
         then Inl (BTClibValueError InvalidChecksum)
       else if out_size = None \<or> out_size = Some (length result - 4)
         then Inr (take (length result - 4) result)
       else Inl (BTClibValueError (InvalidDecodedSize (length result - 4))))"

section \<open>Network parameter registry\<close>

text \<open>
  Modelled from the spec: the module \<open>btclib.network\<close> (\<open>NETWORKS\<close>,
  \<open>network_from_key_value\<close>) is not among the sources. Spec 3: a network record
  holds the p2pkh and p2sh version bytes, the WIF version byte and the bech32 prefix;
  the source also reads \<open>NETWORKS[net].curve\<close>, of which it uses the order \<open>n\<close> and
  the byte size \<open>n_size\<close>. The registry is a parameter of every function that reads
  it: a dictionary in insertion order, as an association list. \<open>networks_get\<close> is
  the subscript \<open>NETWORKS[net]\<close>; \<open>network_from_key_value\<close> returns the first
  network whose field \<open>key\<close> equals the prefix, or \<open>None\<close>.
\<close>

record curve =
  curve_n :: int
  curve_n_size :: nat

record network =
  net_curve :: curve
  net_p2pkh :: octets
  net_p2sh :: octets
  net_wif :: octets
  net_hrp :: string

type_synonym networks = "(string \<times> network) list"

definition networks_get :: "networks \<Rightarrow> string \<Rightarrow> error + network" where
  "networks_get N net = (case map_of N net of None \<Rightarrow> Inl (KeyError net) | Some p \<Rightarrow> Inr p)"

fun network_from_key_value :: "networks \<Rightarrow> (network \<Rightarrow> octets) \<Rightarrow> octets \<Rightarrow> string option" where
  "network_from_key_value [] key prefix = None"
| "network_from_key_value ((net, p) # N) key prefix =
     (if key p = prefix then Some net else network_from_key_value N key prefix)"

text \<open>The illustrative table of spec 6, with the curve secp256k1.\<close>

definition secp256k1 :: curve where
  "secp256k1 = \<lparr>curve_n = 0xFFFFFFFFFFFFFFFFFFFFFFFFFFFFFFFEBAAEDCE6AF48A03BBFD25E8CD0364141,
                 curve_n_size = 32\<rparr>"

definition spec_networks :: networks where
  "spec_networks =
     [(''mainnet'', \<lparr>net_curve = secp256k1, net_p2pkh = [0x00], net_p2sh = [0x05],
                     net_wif = [0x80], net_hrp = ''bc''\<rparr>),
      (''testnet'', \<lparr>net_curve = secp256k1, net_p2pkh = [0x6f], net_p2sh = [0xc4],
                     net_wif = [0xef], net_hrp = ''tb''\<rparr>)]"

section \<open>Script serialization and witness check\<close>

text \<open>
  Modelled from the spec: \<open>btclib.script.script.serialize\<close> is not among the sources.
  Spec 4.2: named opcodes and small integers become a single byte; byte pushes of at
  most 75 bytes use a direct length byte; larger pushes use the minimal of PUSHDATA1
  (76 to 255 bytes), PUSHDATA2 (256 to 65535), PUSHDATA4 (else); integer literals use
  minimal little-endian signed-magnitude encoding except values with dedicated
  small-int opcodes. The table of opcode names is not among the sources either: an
  opcode is its byte, and the names used by the templates have the values of the
  test vectors.
\<close>

datatype command = Op byte | Num int | Data octets

definition OP_0 :: byte where "OP_0 = 0x00"
definition OP_PUSHDATA1 :: byte where "OP_PUSHDATA1 = 0x4c"
definition OP_PUSHDATA2 :: byte where "OP_PUSHDATA2 = 0x4d"
definition OP_PUSHDATA4 :: byte where "OP_PUSHDATA4 = 0x4e"
definition OP_1NEGATE :: byte where "OP_1NEGATE = 0x4f"
definition OP_RETURN :: byte where "OP_RETURN = 0x6a"
definition OP_DUP :: byte where "OP_DUP = 0x76"
definition OP_EQUAL :: byte where "OP_EQUAL = 0x87"
definition OP_EQUALVERIFY :: byte where "OP_EQUALVERIFY = 0x88"
definition OP_HASH160 :: byte where "OP_HASH160 = 0xa9"
definition OP_CHECKSIG :: byte where "OP_CHECKSIG = 0xac"
definition OP_CHECKMULTISIG :: byte where "OP_CHECKMULTISIG = 0xae"

definition op_int :: "nat \<Rightarrow> byte" where
  "op_int k = of_nat (80 + k)"

fun to_bytes_little :: "nat \<Rightarrow> nat \<Rightarrow> octets" where
  "to_bytes_little 0 i = []"
| "to_bytes_little (Suc k) i = of_nat (i mod 256) # to_bytes_little k (i div 256)"

definition encode_num :: "int \<Rightarrow> octets" where
  "encode_num x =
     (let m = to_bytes_little ((bit_length (nat \<bar>x\<bar>) + 7) div 8) (nat \<bar>x\<bar>)
      in if m = [] then []
         else if last m AND 0x80 \<noteq> 0 then m @ [if x < 0 then 0x80 else 0x00]
         else if x < 0 then butlast m @ [last m OR 0x80]
         else m)"

definition push_data :: "octets \<Rightarrow> octets" where
  "push_data d =
     (if length d \<le> 75 then of_nat (length d) # d
      else if length d \<le> 255 then OP_PUSHDATA1 # of_nat (length d) # d
      else if length d \<le> 65535 then OP_PUSHDATA2 # to_bytes_little 2 (length d) @ d
      else OP_PUSHDATA4 # to_bytes_little 4 (length d) @ d)"

fun serialize_command :: "command \<Rightarrow> octets" where
  "serialize_command (Op b) = [b]"
| "serialize_command (Num x) =
     (if x = 0 then [OP_0]
      else if x = - 1 then [OP_1NEGATE]
      else if 0 < x \<and> x \<le> 16 then [op_int (nat x)]
      else push_data (encode_num x))"
| "serialize_command (Data d) = push_data d"

definition serialize :: "command list \<Rightarrow> octets" where
  "serialize cmds = concat (map serialize_command cmds)"

text \<open>
  Modelled from the spec: \<open>btclib.b32.check_witness\<close> is not among the sources.
  Spec 4.4: the program length is validated against the version (v0: exactly 20 or 32
  bytes; v1: 32 bytes; others: 2 to 40 bytes); a witness version is in [0, 16]. The
  tests name the v0 error "invalid witness program length for witness v0".
\<close>

definition check_witness :: "int \<Rightarrow> octets \<Rightarrow> error + unit" where
  "check_witness wit_ver wit_prg =
     (if wit_ver = 0 then
        (if length wit_prg = 20 \<or> length wit_prg = 32 then Inr ()
         else Inl (BTClibValueError (InvalidWitnessProgramLengthV0 (length wit_prg))))
      else if wit_ver < 0 \<or> 16 < wit_ver then Inl (BTClibValueError (InvalidWitnessVersion wit_ver))
      else if wit_ver = 1 then
        (if length wit_prg = 32 then Inr ()
         else Inl (BTClibValueError (InvalidWitnessProgramLength (length wit_prg))))
      else if 2 \<le> length wit_prg \<and> length wit_prg \<le> 40 then Inr ()
      else Inl (BTClibValueError (InvalidWitnessProgramLength (length wit_prg))))"

section \<open>Private keys\<close>

text \<open>
  Modelled from the spec: the module \<open>btclib.to_prv_key\<close> is not among the sources.
  Spec 4.4: \<open>prv_keyinfo_from_wif(text)\<close> decodes, requires total length 33 or 34
  bytes, requires the 0x01 marker iff the length is 34, and requires the version byte
  to match a registered network; fails otherwise; a scalar outside
  \<open>1 \<le> key \<le> n - 1\<close> is rejected. The length is that of the whole decoded payload,
  version byte included, as the encoder of \<open>b58.py\<close> produces it and as the test
  "wrong size (35)" counts it; surrounding whitespace is stripped before decoding
  (spec 6).

  A private key enters \<open>prv_keyinfo_from_prv_key\<close> as an integer, as raw octets or
  as WIF text (BIP32 keys belong to another layer). The tests fix the behaviour:
  the network defaults to mainnet and the compression to true; a WIF that does not
  decode, or that contradicts the requested network or compression, raises
  "not a private key"; an integer outside \<open>1..n-1\<close> raises
  "private key not in 1..n-1"; octets of the wrong size raise "not a private key".
\<close>

datatype prv_key = PrvKeyInt int | PrvKeyOctets octets | PrvKeyWif string

type_synonym prv_keyinfo = "int \<times> string \<times> bool"

definition prv_keyinfo_from_wif :: "networks \<Rightarrow> string \<Rightarrow> error + prv_keyinfo" where
  "prv_keyinfo_from_wif N wif =
     bindE (b58decode (strip wif) None) (\<lambda>payload.
       if length payload \<noteq> 33 \<and> length payload \<noteq> 34
         then Inl (BTClibValueError (WrongWifSize (length payload)))
       else if length payload = 34 \<and> last payload \<noteq> 0x01
         then Inl (BTClibValueError MissingTrailing01)
       else (case network_from_key_value N net_wif (take 1 payload) of
          None \<Rightarrow> Inl (BTClibValueError (InvalidWifPrefix (take 1 payload)))
        | Some net \<Rightarrow>
            bindE (networks_get N net) (\<lambda>p.
              if 0 < int (int_from_bytes (take 32 (drop 1 payload)))
                 \<and> int (int_from_bytes (take 32 (drop 1 payload))) < curve_n (net_curve p)
              then Inr (int (int_from_bytes (take 32 (drop 1 payload))), net, length payload = 34)
              else Inl (BTClibValueError
                     (PrvKeyNotInRange (int (int_from_bytes (take 32 (drop 1 payload)))))))))"

definition check_range :: "networks \<Rightarrow> int \<Rightarrow> string option \<Rightarrow> bool option \<Rightarrow> error + prv_keyinfo" where
  "check_range N q network compressed =
     bindE (networks_get N (case network of None \<Rightarrow> ''mainnet'' | Some net \<Rightarrow> net)) (\<lambda>p.
       if 0 < q \<and> q < curve_n (net_curve p)
       then Inr (q, (case network of None \<Rightarrow> ''mainnet'' | Some net \<Rightarrow> net),
                 (case compressed of None \<Rightarrow> True | Some c \<Rightarrow> c))
       else Inl (BTClibValueError (PrvKeyNotInRange q)))"

fun prv_keyinfo_from_prv_key ::
  "networks \<Rightarrow> prv_key \<Rightarrow> string option \<Rightarrow> bool option \<Rightarrow> error + prv_keyinfo" where
  "prv_keyinfo_from_prv_key N (PrvKeyInt q) network compressed =
     check_range N q network compressed"
| "prv_keyinfo_from_prv_key N (PrvKeyWif wif) network compressed =
     (case prv_keyinfo_from_wif N wif of
        Inl e \<Rightarrow> Inl (BTClibValueError NotAPrvKey)
      | Inr (q, net, compr) \<Rightarrow>
          if (network \<noteq> None \<and> network \<noteq> Some net) \<or> (compressed \<noteq> None \<and> compressed \<noteq> Some compr)
          then Inl (BTClibValueError NotAPrvKey)
          else Inr (q, net, compr))"
| "prv_keyinfo_from_prv_key N (PrvKeyOctets bs) network compressed =
     bindE (networks_get N (case network of None \<Rightarrow> ''mainnet'' | Some net \<Rightarrow> net)) (\<lambda>p.
       if length bs \<noteq> curve_n_size (net_curve p) then Inl (BTClibValueError NotAPrvKey)
       else check_range N (int (int_from_bytes bs)) network compressed)"

section \<open>Base58 addresses and WIF: \<open>b58.py\<close>\<close>

text \<open>
  The functions of \<open>btclib/b58.py\<close>, in the order of the source. Each takes the
  registry \<open>N\<close> that the source reads from the global \<open>NETWORKS\<close>. An optional
  argument is an \<open>option\<close>; a default value of the source is written at the call.
\<close>

definition wif_from_prv_key ::
  "networks \<Rightarrow> prv_key \<Rightarrow> string option \<Rightarrow> bool option \<Rightarrow> error + string" where
  "wif_from_prv_key N prv_key network compressed =
     bindE (prv_keyinfo_from_prv_key N prv_key network compressed) (\<lambda>(q, net, compr).
       bindE (networks_get N net) (\<lambda>p.
         bindE (int_to_bytes q (curve_n_size (net_curve p))) (\<lambda>qb.
           Inr (b58encode (net_wif p @ qb @ (if compr then [0x01] else []))))))"

definition address_from_h160 :: "networks \<Rightarrow> octets \<Rightarrow> octets \<Rightarrow> string \<Rightarrow> error + string" where
  "address_from_h160 N prefix h160 network =
     bindE (bytes_from_octets prefix []) (\<lambda>prefix'.
       bindE (networks_get N network) (\<lambda>p.
         if prefix' \<noteq> net_p2pkh p \<and> prefix' \<noteq> net_p2sh p
         then Inl (BTClibValueError (InvalidNetworkBase58AddressPrefix network prefix'))
         else bindE (bytes_from_octets h160 [20]) (\<lambda>h. Inr (b58encode (prefix' @ h)))))"

text \<open>
  The loop of \<open>h160_from_address\<close> over \<open>zip(("p2pkh", "p2sh"), (False, True))\<close>;
  \<open>if network:\<close> holds for a name that is neither \<open>None\<close> nor the empty string.
\<close>

fun h160_loop ::
  "networks \<Rightarrow> octets \<Rightarrow> ((network \<Rightarrow> octets) \<times> bool) list
   \<Rightarrow> error + (octets \<times> octets \<times> string \<times> bool)" where
  "h160_loop N payload [] =
     Inl (BTClibValueError (InvalidBase58AddressPrefix (take 1 payload)))"
| "h160_loop N payload ((script_type, is_script_hash) # rest) =
     (case network_from_key_value N script_type (take 1 payload) of
        Some network \<Rightarrow>
          if network \<noteq> [] then Inr (take 1 payload, drop 1 payload, network, is_script_hash)
          else h160_loop N payload rest
      | None \<Rightarrow> h160_loop N payload rest)"

definition h160_from_address ::
  "networks \<Rightarrow> string \<Rightarrow> error + (octets \<times> octets \<times> string \<times> bool)" where
  "h160_from_address N b58addr =
     bindE (b58decode (strip b58addr) (Some 21)) (\<lambda>payload.
       h160_loop N payload [(net_p2pkh, False), (net_p2sh, True)])"

definition p2sh :: "networks \<Rightarrow> octets \<Rightarrow> string \<Rightarrow> error + string" where
  "p2sh N script_pub_key network =
     bindE (networks_get N network) (\<lambda>p.
       address_from_h160 N (net_p2sh p) (hash160 script_pub_key) network)"

definition address_from_v0_witness_program :: "networks \<Rightarrow> octets \<Rightarrow> string \<Rightarrow> error + string" where
  "address_from_v0_witness_program N wit_prg network =
     bindE (bytes_from_octets wit_prg []) (\<lambda>wit_prg'.
       bindE (check_witness 0 wit_prg') (\<lambda>_.
         p2sh N (serialize [Num 0, Data wit_prg']) network))"

definition p2wsh_p2sh :: "networks \<Rightarrow> octets \<Rightarrow> string \<Rightarrow> error + string" where
  "p2wsh_p2sh N redeem_script network =
     address_from_v0_witness_program N (sha256 redeem_script) network"

section \<open>Basic facts\<close>

lemma bindE_Inr [simp]: "bindE (Inr x) f = f x"
  by (simp add: bindE_def)

lemma bindE_Inl [simp]: "bindE (Inl e) f = Inl e"
  by (simp add: bindE_def)

lemma bindE_eq_Inr: "bindE m f = Inr y \<longleftrightarrow> (\<exists>x. m = Inr x \<and> f x = Inr y)"
  by (cases m) simp_all

lemma length_bytes_of_u32 [simp]: "length (bytes_of_u32 w) = 4"
  by (simp add: bytes_of_u32_def)

lemma length_bytes_of_u32_le [simp]: "length (bytes_of_u32_le w) = 4"
  by (simp add: bytes_of_u32_le_def)

lemma length_state_bytes [simp]: "length (state_bytes st) = 32"
  by (induction st rule: state_bytes.induct) simp

lemma length_rmd_state_bytes [simp]: "length (rmd_state_bytes st) = 20"
  by (induction st rule: rmd_state_bytes.induct) simp

lemma length_sha256 [simp]: "length (sha256 m) = 32"
  by (simp add: sha256_def)

lemma length_hash256 [simp]: "length (hash256 m) = 32"
  by (simp add: hash256_def)

lemma length_hash160 [simp]: "length (hash160 m) = 20"
  by (simp add: hash160_def ripemd160_def)

lemma network_from_key_value_Some:
  "network_from_key_value N key prefix = Some net \<Longrightarrow> \<exists>p. (net, p) \<in> set N \<and> key p = prefix"
  by (induction N) (auto split: if_splits)

lemma network_from_key_value_None:
  "network_from_key_value N key prefix = None \<longleftrightarrow> (\<forall>(net, p) \<in> set N. key p \<noteq> prefix)"
  by (induction N) (auto split: if_splits)

lemma b58decode_size:
  "b58decode v (Some k) = Inr payload \<Longrightarrow> length payload = k"
  by (auto simp: b58decode_def bindE_eq_Inr split: if_splits)

lemma serialize_witness_v0:
  "length wit_prg \<le> 75 \<Longrightarrow>
   serialize [Num 0, Data wit_prg] = 0x00 # of_nat (length wit_prg) # wit_prg"
  by (simp add: serialize_def push_data_def OP_0_def)

section \<open>p2sh-wrapped witness programs\<close>

text \<open>
  Claim C6. For a witness program of 20 or 32 bytes and a registered network,
  \<open>address_from_v0_witness_program\<close> returns the Base58Check encoding of the
  network's p2sh prefix followed by the HASH160 of the redeem script
  \<open>serialize([0, program])\<close>, which is the byte 0x00, the length byte and the
  program. A program of any other length is rejected with the typed error
  "invalid witness program length for witness v0", whatever the network.
\<close>

theorem address_from_v0_witness_program_p2sh:
  "(length wit_prg = 20 \<or> length wit_prg = 32 \<longrightarrow>
      (\<forall>p. map_of N network = Some p \<and> length (net_p2sh p) = 1 \<longrightarrow>
         address_from_v0_witness_program N wit_prg network
           = Inr (b58encode (net_p2sh p @ hash160 (serialize [Num 0, Data wit_prg])))
         \<and> serialize [Num 0, Data wit_prg] = 0x00 # of_nat (length wit_prg) # wit_prg))
   \<and> (length wit_prg \<noteq> 20 \<and> length wit_prg \<noteq> 32 \<longrightarrow>
        address_from_v0_witness_program N wit_prg network
          = Inl (BTClibValueError (InvalidWitnessProgramLengthV0 (length wit_prg))))"
proof (intro conjI impI allI)
  fix p
  assume len: "length wit_prg = 20 \<or> length wit_prg = 32"
    and reg: "map_of N network = Some p \<and> length (net_p2sh p) = 1"
  from len have chk: "check_witness 0 wit_prg = Inr ()"
    by (auto simp: check_witness_def)
  show "address_from_v0_witness_program N wit_prg network
          = Inr (b58encode (net_p2sh p @ hash160 (serialize [Num 0, Data wit_prg])))"
    using reg chk
    by (simp add: address_from_v0_witness_program_def bytes_from_octets_def p2sh_def
        networks_get_def address_from_h160_def)
  from len show "serialize [Num 0, Data wit_prg] = 0x00 # of_nat (length wit_prg) # wit_prg"
    by (intro serialize_witness_v0) auto
next
  assume "length wit_prg \<noteq> 20 \<and> length wit_prg \<noteq> 32"
  then show "address_from_v0_witness_program N wit_prg network
          = Inl (BTClibValueError (InvalidWitnessProgramLengthV0 (length wit_prg)))"
    by (simp add: address_from_v0_witness_program_def bytes_from_octets_def check_witness_def)
qed

theorem address_from_v0_witness_program_p2sh_witness:
  "address_from_v0_witness_program spec_networks (replicate 20 0) ''mainnet''
     = Inr (b58encode ([0x05] @ hash160 (serialize [Num 0, Data (replicate 20 0)])))
   \<and> address_from_v0_witness_program spec_networks (replicate 31 0) ''mainnet''
     = Inl (BTClibValueError (InvalidWitnessProgramLengthV0 31))"
  using address_from_v0_witness_program_p2sh [of "replicate 20 0" spec_networks "''mainnet''"]
    address_from_v0_witness_program_p2sh [of "replicate 31 0" spec_networks "''mainnet''"]
  by (simp add: spec_networks_def)

section \<open>Decoding a base58 address\<close>

lemma h160_loop_Inr:
  "h160_loop N payload ks = Inr (prefix, h, net, is_sh) \<Longrightarrow>
   prefix = take 1 payload \<and> h = drop 1 payload \<and> net \<noteq> []
   \<and> (\<exists>key. (key, is_sh) \<in> set ks \<and> network_from_key_value N key prefix = Some net)"
  by (induction ks) (auto split: option.splits if_splits)

lemma h160_loop_no_match:
  "\<forall>(key, b) \<in> set ks. network_from_key_value N key (take 1 payload) = None \<Longrightarrow>
   h160_loop N payload ks = Inl (BTClibValueError (InvalidBase58AddressPrefix (take 1 payload)))"
  by (induction ks) auto

lemma h160_loop_Inl:
  "h160_loop N payload ks = Inl e \<Longrightarrow>
   e = BTClibValueError (InvalidBase58AddressPrefix (take 1 payload))"
  by (induction ks) (auto split: option.splits if_splits)

text \<open>
  Claim C3. \<open>h160_from_address\<close> strips the text and Base58Check-decodes it
  requiring 21 bytes: a decoding error is the result. Otherwise the decoded payload
  has 21 bytes; a successful result is the first byte as prefix, the remaining 20
  bytes as hash, and a network of the registry whose p2pkh version byte (is-script-hash
  false) or p2sh version byte (is-script-hash true) is the prefix; a failure is the
  typed error "invalid base58 address prefix" carrying the prefix, and it is the
  result whenever no network of the registry has the prefix as p2pkh or p2sh byte.
\<close>

theorem h160_from_address_decodes:
  "(\<forall>e. b58decode (strip b58addr) (Some 21) = Inl e \<longrightarrow> h160_from_address N b58addr = Inl e)
   \<and> (\<forall>payload. b58decode (strip b58addr) (Some 21) = Inr payload \<longrightarrow>
         length payload = 21
         \<and> (\<forall>prefix h net is_sh. h160_from_address N b58addr = Inr (prefix, h, net, is_sh) \<longrightarrow>
               prefix = take 1 payload \<and> h = drop 1 payload \<and> length prefix = 1 \<and> length h = 20
               \<and> (\<exists>p. (net, p) \<in> set N \<and> (if is_sh then net_p2sh p else net_p2pkh p) = prefix))
         \<and> (\<forall>e. h160_from_address N b58addr = Inl e \<longrightarrow>
               e = BTClibValueError (InvalidBase58AddressPrefix (take 1 payload)))
         \<and> ((\<forall>(net, p) \<in> set N. net_p2pkh p \<noteq> take 1 payload \<and> net_p2sh p \<noteq> take 1 payload) \<longrightarrow>
               h160_from_address N b58addr
                 = Inl (BTClibValueError (InvalidBase58AddressPrefix (take 1 payload)))))"
proof (intro conjI allI impI)
  fix e assume "b58decode (strip b58addr) (Some 21) = Inl e"
  then show "h160_from_address N b58addr = Inl e"
    by (simp add: h160_from_address_def)
next
  fix payload assume d: "b58decode (strip b58addr) (Some 21) = Inr payload"
  then show len: "length payload = 21"
    by (rule b58decode_size)
  have eq: "h160_from_address N b58addr = h160_loop N payload [(net_p2pkh, False), (net_p2sh, True)]"
    using d by (simp add: h160_from_address_def)
  {
    fix prefix h net is_sh
    assume r: "h160_from_address N b58addr = Inr (prefix, h, net, is_sh)"
    from h160_loop_Inr [OF r [unfolded eq]]
    obtain key where k: "prefix = take 1 payload" "h = drop 1 payload"
      "(key, is_sh) \<in> set [(net_p2pkh, False), (net_p2sh, True)]"
      "network_from_key_value N key prefix = Some net"
      by blast
    from k(3) have key: "key = (if is_sh then net_p2sh else net_p2pkh)"
      by auto
    from network_from_key_value_Some [OF k(4)] key
    have ex: "\<exists>p. (net, p) \<in> set N \<and> (if is_sh then net_p2sh p else net_p2pkh p) = prefix"
      by (auto split: if_splits)
    show "prefix = take 1 payload" by (rule k(1))
    show "h = drop 1 payload" by (rule k(2))
    show "length prefix = 1" using k(1) len by simp
    show "length h = 20" using k(2) len by simp
    show "\<exists>p. (net, p) \<in> set N \<and> (if is_sh then net_p2sh p else net_p2pkh p) = prefix"
      by (rule ex)
  }
  {
    fix e assume "h160_from_address N b58addr = Inl e"
    then show "e = BTClibValueError (InvalidBase58AddressPrefix (take 1 payload))"
      unfolding eq by (rule h160_loop_Inl)
  }
  {
    assume "\<forall>(net, p) \<in> set N. net_p2pkh p \<noteq> take 1 payload \<and> net_p2sh p \<noteq> take 1 payload"
    then have "network_from_key_value N net_p2pkh (take 1 payload) = None"
      "network_from_key_value N net_p2sh (take 1 payload) = None"
      by (auto simp: network_from_key_value_None)
    then show "h160_from_address N b58addr
                 = Inl (BTClibValueError (InvalidBase58AddressPrefix (take 1 payload)))"
      unfolding eq by simp
  }
qed

section \<open>Base58Check round trip\<close>

lemma int_from_bytes_snoc: "int_from_bytes (bs @ [b]) = int_from_bytes bs * 256 + unat b"
  by (simp add: int_from_bytes_def)

lemma int_from_bytes_Nil [simp]: "int_from_bytes [] = 0"
  by (simp add: int_from_bytes_def)

lemma unat_byte_less: "unat (b :: byte) < 256"
proof -
  have "unat b < 2 ^ LENGTH(8)" by (rule unsigned_less)
  then show ?thesis by simp
qed

lemma int_from_bytes_less: "int_from_bytes bs < 256 ^ length bs"
proof (induction bs rule: rev_induct)
  case Nil
  then show ?case by simp
next
  case (snoc b bs)
  have "int_from_bytes bs * 256 + unat b < (int_from_bytes bs + 1) * 256"
    using unat_byte_less [of b] by simp
  also have "\<dots> \<le> 256 ^ length bs * 256"
    using snoc.IH by (intro mult_le_mono1) simp
  finally show ?case by (simp add: int_from_bytes_snoc)
qed

lemma length_to_bytes_big [simp]: "length (to_bytes_big k i) = k"
  by (induction k arbitrary: i) simp_all

lemma to_bytes_big_from_bytes: "to_bytes_big (length bs) (int_from_bytes bs) = bs"
proof (induction bs rule: rev_induct)
  case Nil
  then show ?case by simp
next
  case (snoc b bs)
  have d: "(int_from_bytes bs * 256 + unat b) div 256 = int_from_bytes bs"
    using unat_byte_less [of b] by simp
  have m: "(int_from_bytes bs * 256 + unat b) mod 256 = unat b"
    using unat_byte_less [of b] by simp
  have "to_bytes_big (Suc (length bs)) (int_from_bytes bs * 256 + unat b)
          = to_bytes_big (length bs) (int_from_bytes bs) @ [of_nat (unat b)]"
    by (simp only: to_bytes_big.simps d m)
  then show ?case
    by (simp add: int_from_bytes_snoc snoc.IH)
qed

lemma unat_of_nat_byte: "m < 256 \<Longrightarrow> unat (of_nat m :: byte) = m"
  by (simp add: unat_of_nat)

lemma int_from_bytes_to_bytes_big: "i < 256 ^ k \<Longrightarrow> int_from_bytes (to_bytes_big k i) = i"
proof (induction k arbitrary: i)
  case 0
  then show ?case by simp
next
  case (Suc k)
  from Suc.prems have "i div 256 < 256 ^ k"
    by (simp add: less_mult_imp_div_less mult.commute)
  then have "int_from_bytes (to_bytes_big k (i div 256)) = i div 256"
    by (rule Suc.IH)
  then show ?case
    by (simp add: int_from_bytes_snoc unat_of_nat_byte)
qed

lemma int_from_bytes_Cons:
  "int_from_bytes (b # bs) = unat b * 256 ^ length bs + int_from_bytes bs"
proof (induction bs rule: rev_induct)
  case Nil
  then show ?case by (simp add: int_from_bytes_def)
next
  case (snoc x xs)
  have "int_from_bytes (b # xs @ [x]) = int_from_bytes ((b # xs) @ [x])" by simp
  also have "\<dots> = int_from_bytes (b # xs) * 256 + unat x"
    by (rule int_from_bytes_snoc)
  finally show ?case
    by (simp add: snoc.IH int_from_bytes_snoc algebra_simps)
qed

lemma bit_length_bounds:
  "0 < i \<Longrightarrow> 2 ^ (bit_length i - 1) \<le> i \<and> i < 2 ^ bit_length i"
proof (induction i rule: bit_length.induct)
  case (1 i)
  show ?case
  proof (cases "i div 2 = 0")
    case True
    with "1.prems" have "i = 1" by (simp add: div_eq_0_iff) 
    then show ?thesis
      by (simp add: bit_length.simps [of "Suc 0"] bit_length.simps [of 0])
  next
    case False
    then have pos: "0 < i div 2" by simp
    from "1.IH" [OF _ pos] "1.prems"
    have ih: "2 ^ (bit_length (i div 2) - 1) \<le> i div 2" "i div 2 < 2 ^ bit_length (i div 2)"
      by auto
    have bl: "bit_length i = Suc (bit_length (i div 2))"
      using "1.prems" by (subst bit_length.simps) simp
    have blpos: "0 < bit_length (i div 2)"
      using pos by (subst bit_length.simps) simp
    from ih(1) have "2 * 2 ^ (bit_length (i div 2) - 1) \<le> i" by linarith
    moreover have "2 * (2::nat) ^ (bit_length (i div 2) - 1) = 2 ^ bit_length (i div 2)"
      using blpos by (cases "bit_length (i div 2)") simp_all
    moreover from ih(2) have "i < 2 * 2 ^ bit_length (i div 2)" by linarith
    ultimately show ?thesis by (simp add: bl)
  qed
qed

lemma nbytes_minimal:
  assumes "bs \<noteq> []" "hd bs \<noteq> 0"
  shows "(bit_length (int_from_bytes bs) + 7) div 8 = length bs"
proof -
  obtain b r where bs: "bs = b # r" using assms(1) by (cases bs) auto
  with assms(2) have "b \<noteq> 0" by simp
  then have ub: "1 \<le> unat b" by (simp add: unat_gt_0 Suc_leI)
  let ?i = "int_from_bytes bs"
  let ?L = "length bs"
  have lo: "256 ^ length r \<le> ?i"
  proof -
    have "(256::nat) ^ length r \<le> unat b * 256 ^ length r"
      using ub by simp
    then show ?thesis by (simp add: bs int_from_bytes_Cons trans_le_add1)
  qed
  have hi: "?i < 256 ^ ?L" by (rule int_from_bytes_less)
  from lo have ipos: "0 < ?i" by (metis less_le_trans zero_less_numeral zero_less_power)
  from bit_length_bounds [OF ipos]
  have b1: "2 ^ (bit_length ?i - 1) \<le> ?i" and b2: "?i < 2 ^ bit_length ?i" by auto
  have p: "(256::nat) ^ n = 2 ^ (8 * n)" for n
    by (simp add: power_mult)
  from b1 hi have "(2::nat) ^ (bit_length ?i - 1) < 2 ^ (8 * ?L)"
    by (simp add: p [symmetric] le_less_trans)
  then have u: "bit_length ?i - 1 < 8 * ?L" by simp
  from lo b2 have "(2::nat) ^ (8 * length r) < 2 ^ bit_length ?i"
    by (simp add: p [symmetric] le_less_trans)
  then have l: "8 * length r < bit_length ?i" by simp
  from u l show ?thesis by (simp add: bs) 
qed

lemma str_index_nth:
  "distinct xs \<Longrightarrow> i < length xs \<Longrightarrow> str_index xs (xs ! i) = Some i"
proof (induction xs arbitrary: i)
  case Nil
  then show ?case by simp
next
  case (Cons x xs)
  show ?case
  proof (cases i)
    case 0
    then show ?thesis by simp
  next
    case (Suc j)
    with Cons.prems have "xs ! j \<in> set xs" by simp
    with Cons.prems have "x \<noteq> xs ! j" by auto
    with Suc Cons show ?thesis by simp
  qed
qed

lemma length_digits58 [simp]: "length digits58 = 58"
  by (simp add: digits58_def)

lemma distinct_digits58: "distinct digits58"
  by (simp add: digits58_def)

lemma str_index_digits58: "d < 58 \<Longrightarrow> str_index digits58 (digits58 ! d) = Some d"
  by (rule str_index_nth [OF distinct_digits58]) simp

lemma b58decode_to_int_append:
  "b58decode_to_int a (s @ t) = bindE (b58decode_to_int a s) (\<lambda>v. b58decode_to_int v t)"
  by (induction s arbitrary: a) (simp_all split: option.splits)

lemma b58decode_to_int_encode: "b58decode_to_int 0 (b58encode_from_int i) = Inr i"
proof (induction i rule: b58encode_from_int.induct)
  case (1 i)
  show ?case
  proof (cases "i < 58")
    case True
    then show ?thesis
      by (subst b58encode_from_int.simps) (simp add: str_index_digits58)
  next
    case False
    then have "b58decode_to_int 0 (b58encode_from_int (i div 58)) = Inr (i div 58)"
      by (rule "1.IH")
    with False show ?thesis
      by (subst b58encode_from_int.simps)
         (simp add: b58decode_to_int_append str_index_digits58)
  qed
qed

lemma b58encode_from_int_hd:
  "0 < i \<Longrightarrow> b58encode_from_int i \<noteq> [] \<and> hd (b58encode_from_int i) \<noteq> digits58 ! 0"
proof (induction i rule: b58encode_from_int.induct)
  case (1 i)
  show ?case
  proof (cases "i < 58")
    case True
    with "1.prems" have "digits58 ! i \<noteq> digits58 ! 0"
      using distinct_digits58 by (simp add: nth_eq_iff_index_eq)
    with True show ?thesis
      by (subst (1 2) b58encode_from_int.simps) simp
  next
    case False
    then have "0 < i div 58" by (simp add: div_greater_zero_iff)
    with False "1.IH" have "b58encode_from_int (i div 58) \<noteq> [] \<and>
        hd (b58encode_from_int (i div 58)) \<noteq> digits58 ! 0"
      by simp
    with False show ?thesis
      by (subst (1 2) b58encode_from_int.simps) simp
  qed
qed

lemma set_b58encode_from_int: "set (b58encode_from_int i) \<subseteq> set digits58"
proof (induction i rule: b58encode_from_int.induct)
  case (1 i)
  show ?case
  proof (cases "i < 58")
    case True
    then show ?thesis
      by (subst b58encode_from_int.simps) simp
  next
    case False
    with "1.IH" have "set (b58encode_from_int (i div 58)) \<subseteq> set digits58" by simp
    with False show ?thesis
      by (subst b58encode_from_int.simps) simp
  qed
qed

lemma dropWhile_zeros_split:
  "v = replicate (length v - length (dropWhile (\<lambda>b. b = x) v)) x @ dropWhile (\<lambda>b. b = x) v"
proof -
  have "takeWhile (\<lambda>b. b = x) v = replicate (length (takeWhile (\<lambda>b. b = x) v)) x"
    by (induction v) auto
  moreover have "length (takeWhile (\<lambda>b. b = x) v) = length v - length (dropWhile (\<lambda>b. b = x) v)"
    by (metis add_diff_cancel_right' length_append takeWhile_dropWhile_id)
  ultimately show ?thesis
    by (metis takeWhile_dropWhile_id)
qed

lemma dropWhile_hd_neq:
  "ys = [] \<or> hd ys \<noteq> x \<Longrightarrow> dropWhile (\<lambda>c. c = x) ys = ys"
  by (cases ys) auto

lemma dropWhile_replicate_append:
  "ys = [] \<or> hd ys \<noteq> x \<Longrightarrow> dropWhile (\<lambda>c. c = x) (replicate n x @ ys) = ys"
  by (induction n) (simp_all add: dropWhile_hd_neq)

lemma hd_dropWhile_neq: "dropWhile (\<lambda>b. b = x) v \<noteq> [] \<Longrightarrow> hd (dropWhile (\<lambda>b. b = x) v) \<noteq> x"
  using hd_dropWhile [of "\<lambda>b. b = x" v] by simp

lemma b58decode_raw_encode: "b58decode_raw (b58encode_raw v) = Inr v"
proof -
  let ?v' = "dropWhile (\<lambda>b. b = 0) v"
  let ?n = "length v - length ?v'"
  have v: "v = replicate ?n 0 @ ?v'" by (rule dropWhile_zeros_split)
  show ?thesis
  proof (cases "?v' = []")
    case True
    then have e: "b58encode_raw v = replicate ?n (digits58 ! 0)"
      by (simp add: b58encode_raw_def)
    have "dropWhile (\<lambda>c. c = digits58 ! 0) (replicate ?n (digits58 ! 0)) = []"
      using dropWhile_replicate_append [of "[]" "digits58 ! 0" ?n] by simp
    then have "b58decode_raw (b58encode_raw v) = Inr (replicate ?n 0)"
      by (simp add: e b58decode_raw_def)
    moreover from v True have "replicate ?n 0 = v" by (metis append_Nil2)
    ultimately show ?thesis by simp
  next
    case False
    let ?i = "int_from_bytes ?v'"
    let ?e = "b58encode_from_int ?i"
    from False have h: "hd ?v' \<noteq> 0" by (rule hd_dropWhile_neq)
    from nbytes_minimal [OF False h]
    have nb: "(bit_length ?i + 7) div 8 = length ?v'" .
    have ipos: "0 < ?i"
    proof (rule ccontr)
      assume "\<not> 0 < ?i"
      then have "bit_length ?i = 0" by (simp add: bit_length.simps)
      with nb False show False by simp
    qed
    from b58encode_from_int_hd [OF ipos]
    have ne: "?e \<noteq> []" and hd: "hd ?e \<noteq> digits58 ! 0" by auto
    from False have e: "b58encode_raw v = replicate ?n (digits58 ! 0) @ ?e"
      by (auto simp: b58encode_raw_def Let_def)
    have dw: "dropWhile (\<lambda>c. c = digits58 ! 0) (b58encode_raw v) = ?e"
      unfolding e using hd by (intro dropWhile_replicate_append) simp
    have len: "length (b58encode_raw v) - length ?e = ?n"
      by (simp add: e)
    have "b58decode_raw (b58encode_raw v) = Inr (replicate ?n 0 @ to_bytes_big (length ?v') ?i)"
      unfolding b58decode_raw_def
      by (simp add: dw ne len b58decode_to_int_encode nb Let_def)
    also have "\<dots> = Inr v"
      using v by (simp add: to_bytes_big_from_bytes)
    finally show ?thesis .
  qed
qed

lemma b58decode_encode:
  "k = None \<or> k = Some (length v) \<Longrightarrow> b58decode (b58encode v) k = Inr v"
  by (auto simp: b58decode_def b58encode_def b58decode_raw_encode)

lemma not_isspace_digits58: "c \<in> set digits58 \<Longrightarrow> \<not> isspace c"
  by (auto simp: digits58_def isspace_def)

lemma set_b58encode_raw: "set (b58encode_raw v) \<subseteq> set digits58"
  using set_b58encode_from_int by (auto simp: b58encode_raw_def Let_def)

lemma strip_no_space: "\<forall>c \<in> set s. \<not> isspace c \<Longrightarrow> strip s = s"
proof -
  assume a: "\<forall>c \<in> set s. \<not> isspace c"
  have d: "dropWhile isspace t = t" if "\<forall>c \<in> set t. \<not> isspace c" for t
    using that by (cases t) auto
  from a have "dropWhile isspace s = s" by (rule d)
  moreover from a have "dropWhile isspace (rev s) = rev s" by (intro d) simp
  ultimately show ?thesis by (simp add: strip_def)
qed

lemma strip_b58encode [simp]: "strip (b58encode v) = b58encode v"
  using set_b58encode_raw not_isspace_digits58
  by (intro strip_no_space) (auto simp: b58encode_def)

section \<open>WIF round trip\<close>

lemma network_from_key_value_unique:
  assumes "(net, p) \<in> set N" "\<forall>(n', p') \<in> set N. key p' = key p \<longrightarrow> n' = net"
  shows "network_from_key_value N key (key p) = Some net"
proof (cases "network_from_key_value N key (key p)")
  case None
  with assms(1) show ?thesis
    by (auto simp: network_from_key_value_None)
next
  case (Some n')
  from network_from_key_value_Some [OF Some] obtain p' where "(n', p') \<in> set N" "key p' = key p"
    by blast
  with assms(2) have "n' = net" by auto
  with Some show ?thesis by simp
qed

lemma wif_from_prv_key_int:
  assumes "map_of N network = Some p" "curve_n_size (net_curve p) = 32"
    "curve_n (net_curve p) \<le> 2 ^ 256" "0 < q" "q < curve_n (net_curve p)"
  shows "wif_from_prv_key N (PrvKeyInt q) (Some network) (Some compressed)
         = Inr (b58encode (net_wif p @ to_bytes_big 32 (nat q) @ (if compressed then [0x01] else [])))"
proof -
  have "q < 256 ^ 32" using assms(3,5) by simp
  then have "int_to_bytes q 32 = Inr (to_bytes_big 32 (nat q))"
    using assms(4) by (simp add: int_to_bytes_def)
  then show ?thesis
    using assms by (simp add: wif_from_prv_key_def check_range_def networks_get_def)
qed

lemma prv_keyinfo_from_wif_encode:
  assumes "map_of N network = Some p" "length (net_wif p) = 1"
    "\<forall>(n', p') \<in> set N. net_wif p' = net_wif p \<longrightarrow> n' = network"
    "length kb = 32" "0 < int (int_from_bytes kb)" "int (int_from_bytes kb) < curve_n (net_curve p)"
  shows "prv_keyinfo_from_wif N (b58encode (net_wif p @ kb @ (if compressed then [0x01] else [])))
         = Inr (int (int_from_bytes kb), network, compressed)"
proof -
  let ?payload = "net_wif p @ kb @ (if compressed then [0x01] else [])"
  have dec: "b58decode (strip (b58encode ?payload)) None = Inr ?payload"
    by (simp add: b58decode_encode)
  have len: "length ?payload = (if compressed then 34 else 33)"
    using assms(2,4) by simp
  have lst: "compressed \<Longrightarrow> last ?payload = 0x01" by simp
  have pre: "take 1 ?payload = net_wif p" using assms(2) by simp
  have key: "take 32 (drop 1 ?payload) = kb" using assms(2,4) by simp
  from assms(1) have mem: "(network, p) \<in> set N" by (rule map_of_SomeD)
  have nfk: "network_from_key_value N net_wif (net_wif p) = Some network"
    using mem assms(3) by (rule network_from_key_value_unique)
  show ?thesis
    unfolding prv_keyinfo_from_wif_def dec bindE_Inr pre key nfk
    using len lst assms(1,5,6) by (auto simp: networks_get_def)
qed

text \<open>
  Claim C2. For a registered network whose WIF version byte is one byte that no
  other network of the registry shares (the registry invariant of spec 3), a curve of
  32-byte scalars, and a private key \<open>q\<close> with \<open>1 \<le> q \<le> n - 1\<close>: \<open>wif_from_prv_key\<close>
  returns a WIF, and decoding that WIF with \<open>prv_keyinfo_from_prv_key\<close> returns
  exactly \<open>(q, network, compressed)\<close>.
\<close>

theorem wif_round_trip:
  assumes "map_of N network = Some p" "length (net_wif p) = 1"
    "\<forall>(n', p') \<in> set N. net_wif p' = net_wif p \<longrightarrow> n' = network"
    "curve_n_size (net_curve p) = 32" "curve_n (net_curve p) \<le> 2 ^ 256"
    "1 \<le> q" "q \<le> curve_n (net_curve p) - 1"
  shows "\<exists>wif. wif_from_prv_key N (PrvKeyInt q) (Some network) (Some compressed) = Inr wif
           \<and> prv_keyinfo_from_prv_key N (PrvKeyWif wif) None None = Inr (q, network, compressed)"
proof -
  let ?kb = "to_bytes_big 32 (nat q)"
  let ?wif = "b58encode (net_wif p @ ?kb @ (if compressed then [0x01] else []))"
  from assms(6,7) have q: "0 < q" "q < curve_n (net_curve p)" by auto
  have enc: "wif_from_prv_key N (PrvKeyInt q) (Some network) (Some compressed) = Inr ?wif"
    using assms(1,4,5) q by (rule wif_from_prv_key_int)
  have "nat q < 256 ^ 32" using q assms(5) by (simp add: nat_less_iff)
  then have v: "int (int_from_bytes ?kb) = q"
    using q(1) by (simp add: int_from_bytes_to_bytes_big)
  have "prv_keyinfo_from_wif N ?wif = Inr (int (int_from_bytes ?kb), network, compressed)"
    using assms(1,2,3) by (rule prv_keyinfo_from_wif_encode) (simp_all add: v q)
  then have "prv_keyinfo_from_prv_key N (PrvKeyWif ?wif) None None = Inr (q, network, compressed)"
    by (simp add: v)
  with enc show ?thesis by blast
qed

lemma spec_networks_mainnet:
  "map_of spec_networks ''mainnet''
     = Some \<lparr>net_curve = secp256k1, net_p2pkh = [0x00], net_p2sh = [0x05],
              net_wif = [0x80], net_hrp = ''bc''\<rparr>"
  by (simp add: spec_networks_def)

theorem wif_round_trip_witness:
  "\<exists>wif. wif_from_prv_key spec_networks (PrvKeyInt 1) (Some ''mainnet'') (Some True) = Inr wif
         \<and> prv_keyinfo_from_prv_key spec_networks (PrvKeyWif wif) None None = Inr (1, ''mainnet'', True)"
  by (rule wif_round_trip [OF spec_networks_mainnet]) (simp_all add: spec_networks_def secp256k1_def)

section \<open>Decoding a WIF\<close>

lemma b58decode_to_int_typed:
  "b58decode_to_int a s = Inl e \<Longrightarrow> \<exists>m. e = BTClibValueError m"
  by (induction s arbitrary: a) (auto split: option.splits)

lemma b58decode_typed: "b58decode v k = Inl e \<Longrightarrow> \<exists>m. e = BTClibValueError m"
  by (cases "b58decode_raw v")
     (auto simp: b58decode_def b58decode_raw_def Let_def bindE_def
           split: if_splits sum.splits dest: b58decode_to_int_typed)

lemma networks_get_member:
  "(net, p) \<in> set N \<Longrightarrow> \<exists>p'. networks_get N net = Inr p' \<and> (net, p') \<in> set N"
proof -
  assume "(net, p) \<in> set N"
  then have "map_of N net \<noteq> None"
    by (simp add: map_of_eq_None_iff image_iff) force
  then obtain p' where "map_of N net = Some p'" by auto
  then show ?thesis
    by (auto simp: networks_get_def dest: map_of_SomeD)
qed

text \<open>
  Claim C5. Decoding a WIF succeeds only if the Base58Check payload has 33 or 34
  bytes in all (version byte included), ends with the marker 0x01 when it has 34,
  and starts with the WIF version byte of a network of the registry; the
  compression flag returned is true exactly for 34 bytes. Every failure is a typed
  error, which \<open>prv_keyinfo_from_prv_key\<close> reports as "not a private key". Any other
  length, a 34-byte payload with another last byte, and a version byte of no
  registered network are each rejected.
\<close>

theorem prv_keyinfo_from_wif_checks:
  "(\<forall>q net compr. prv_keyinfo_from_wif N wif = Inr (q, net, compr) \<longrightarrow>
      (\<exists>payload. b58decode (strip wif) None = Inr payload
         \<and> (length payload = 33 \<or> length payload = 34)
         \<and> (length payload = 34 \<longrightarrow> last payload = 0x01)
         \<and> compr = (length payload = 34)
         \<and> (\<exists>p. (net, p) \<in> set N \<and> net_wif p = take 1 payload)))
   \<and> (\<forall>e. prv_keyinfo_from_wif N wif = Inl e \<longrightarrow>
         (\<exists>m. e = BTClibValueError m)
         \<and> prv_keyinfo_from_prv_key N (PrvKeyWif wif) None None = Inl (BTClibValueError NotAPrvKey))
   \<and> (\<forall>payload. b58decode (strip wif) None = Inr payload \<longrightarrow>
         (length payload \<noteq> 33 \<and> length payload \<noteq> 34 \<longrightarrow>
            prv_keyinfo_from_wif N wif = Inl (BTClibValueError (WrongWifSize (length payload))))
         \<and> (length payload = 34 \<and> last payload \<noteq> 0x01 \<longrightarrow>
            prv_keyinfo_from_wif N wif = Inl (BTClibValueError MissingTrailing01))
         \<and> ((length payload = 33 \<or> length payload = 34 \<and> last payload = 0x01)
              \<and> (\<forall>(net, p) \<in> set N. net_wif p \<noteq> take 1 payload) \<longrightarrow>
            prv_keyinfo_from_wif N wif = Inl (BTClibValueError (InvalidWifPrefix (take 1 payload)))))"
proof (intro conjI allI impI)
  fix q net compr
  assume r: "prv_keyinfo_from_wif N wif = Inr (q, net, compr)"
  then obtain payload where d: "b58decode (strip wif) None = Inr payload"
    by (auto simp: prv_keyinfo_from_wif_def bindE_eq_Inr)
  from r have rest: "(length payload = 33 \<or> length payload = 34)
      \<and> (length payload = 34 \<longrightarrow> last payload = 0x01)
      \<and> compr = (length payload = 34)
      \<and> network_from_key_value N net_wif (take 1 payload) = Some net"
    unfolding prv_keyinfo_from_wif_def d bindE_Inr
    by (auto simp: bindE_eq_Inr split: if_splits option.splits)
  then have "\<exists>p. (net, p) \<in> set N \<and> net_wif p = take 1 payload"
    by (auto dest: network_from_key_value_Some)
  with d rest show "\<exists>payload. b58decode (strip wif) None = Inr payload
         \<and> (length payload = 33 \<or> length payload = 34)
         \<and> (length payload = 34 \<longrightarrow> last payload = 0x01)
         \<and> compr = (length payload = 34)
         \<and> (\<exists>p. (net, p) \<in> set N \<and> net_wif p = take 1 payload)"
    by blast
next
  fix e assume l: "prv_keyinfo_from_wif N wif = Inl e"
  show "\<exists>m. e = BTClibValueError m"
  proof (cases "b58decode (strip wif) None")
    case (Inl e')
    with l have "e = e'" by (simp add: prv_keyinfo_from_wif_def)
    with Inl show ?thesis by (auto dest: b58decode_typed)
  next
    case (Inr payload)
    show ?thesis
    proof (cases "network_from_key_value N net_wif (take 1 payload)")
      case None
      with l Inr show ?thesis
        by (auto simp: prv_keyinfo_from_wif_def split: if_splits)
    next
      case (Some net)
      then obtain p where "(net, p) \<in> set N"
        by (auto dest: network_from_key_value_Some)
      then obtain p' where "networks_get N net = Inr p'"
        by (auto dest: networks_get_member)
      with l Inr Some show ?thesis
        by (auto simp: prv_keyinfo_from_wif_def split: if_splits)
    qed
  qed
  from l show "prv_keyinfo_from_prv_key N (PrvKeyWif wif) None None = Inl (BTClibValueError NotAPrvKey)"
    by simp
next
  fix payload assume d: "b58decode (strip wif) None = Inr payload"
  {
    assume "length payload \<noteq> 33 \<and> length payload \<noteq> 34"
    then show "prv_keyinfo_from_wif N wif = Inl (BTClibValueError (WrongWifSize (length payload)))"
      by (simp add: prv_keyinfo_from_wif_def d)
  }
  {
    assume "length payload = 34 \<and> last payload \<noteq> 0x01"
    then show "prv_keyinfo_from_wif N wif = Inl (BTClibValueError MissingTrailing01)"
      by (simp add: prv_keyinfo_from_wif_def d)
  }
  {
    assume a: "(length payload = 33 \<or> length payload = 34 \<and> last payload = 0x01)
              \<and> (\<forall>(net, p) \<in> set N. net_wif p \<noteq> take 1 payload)"
    then have "network_from_key_value N net_wif (take 1 payload) = None"
      by (simp add: network_from_key_value_None)
    with a show "prv_keyinfo_from_wif N wif = Inl (BTClibValueError (InvalidWifPrefix (take 1 payload)))"
      by (auto simp: prv_keyinfo_from_wif_def d)
  }
qed

lemma prv_keyinfo_from_wif_example:
  "prv_keyinfo_from_wif spec_networks (b58encode ([0x80] @ to_bytes_big 32 1 @ [0x01]))
     = Inr (1, ''mainnet'', True)"
proof -
  define kb where "kb = to_bytes_big 32 1"
  have l: "length kb = 32" by (simp add: kb_def)
  have "int_from_bytes kb = 1"
    unfolding kb_def by (rule int_from_bytes_to_bytes_big) simp
  then have v: "int (int_from_bytes kb) = 1" by simp
  have "prv_keyinfo_from_wif spec_networks
          (b58encode (net_wif \<lparr>net_curve = secp256k1, net_p2pkh = [0x00], net_p2sh = [0x05],
              net_wif = [0x80], net_hrp = ''bc''\<rparr> @ kb @ (if True then [0x01] else [])))
        = Inr (int (int_from_bytes kb), ''mainnet'', True)"
    by (rule prv_keyinfo_from_wif_encode [OF spec_networks_mainnet])
       (simp_all add: l v spec_networks_def secp256k1_def)
  then have "prv_keyinfo_from_wif spec_networks
          (b58encode (net_wif \<lparr>net_curve = secp256k1, net_p2pkh = [0x00], net_p2sh = [0x05],
              net_wif = [0x80], net_hrp = ''bc''\<rparr> @ kb @ (if True then [0x01] else [])))
        = Inr (1, ''mainnet'', True)"
    by (simp only: v)
  then show ?thesis by (simp add: kb_def)
qed

lemma b58decode_empty: "b58decode [] k = Inl (BTClibValueError (NotEnoughBytesForChecksum 0))"
  by (simp add: b58decode_def b58decode_raw_def)

lemma strip_Nil [simp]: "strip [] = []"
  by (simp add: strip_def)

theorem prv_keyinfo_from_wif_checks_witness:
  "(\<exists>payload. b58decode (strip (b58encode ([0x80] @ to_bytes_big 32 1 @ [0x01]))) None = Inr payload
      \<and> length payload = 34 \<and> last payload = 0x01)
   \<and> prv_keyinfo_from_wif spec_networks (b58encode (replicate 35 0x80))
       = Inl (BTClibValueError (WrongWifSize 35))
   \<and> prv_keyinfo_from_prv_key spec_networks (PrvKeyWif []) None None
       = Inl (BTClibValueError NotAPrvKey)"
proof (intro conjI)
  define w where "w = b58encode ([0x80] @ to_bytes_big 32 1 @ [0x01])"
  have ex: "prv_keyinfo_from_wif spec_networks w = Inr (1, ''mainnet'', True)"
    unfolding w_def by (rule prv_keyinfo_from_wif_example)
  from prv_keyinfo_from_wif_checks [of spec_networks w] ex
  obtain payload where "b58decode (strip w) None = Inr payload"
    "length payload = 34 \<longrightarrow> last payload = 0x01" "True = (length payload = 34)"
    by blast
  then have "\<exists>payload. b58decode (strip w) None = Inr payload
      \<and> length payload = 34 \<and> last payload = 0x01"
    by auto
  then show "\<exists>payload. b58decode (strip (b58encode ([0x80] @ to_bytes_big 32 1 @ [0x01]))) None = Inr payload
      \<and> length payload = 34 \<and> last payload = 0x01"
    by (simp only: w_def)
next
  define x where "x = replicate 35 (0x80::byte)"
  have lx: "length x = 35" by (simp add: x_def)
  have dx: "b58decode (strip (b58encode x)) None = Inr x"
    by (simp add: b58decode_encode)
  from prv_keyinfo_from_wif_checks [of spec_networks "b58encode x"]
  have "\<forall>payload. b58decode (strip (b58encode x)) None = Inr payload \<longrightarrow>
         (length payload \<noteq> 33 \<and> length payload \<noteq> 34 \<longrightarrow>
            prv_keyinfo_from_wif spec_networks (b58encode x)
              = Inl (BTClibValueError (WrongWifSize (length payload))))"
    by blast
  with dx have "length x \<noteq> 33 \<and> length x \<noteq> 34 \<longrightarrow>
            prv_keyinfo_from_wif spec_networks (b58encode x)
              = Inl (BTClibValueError (WrongWifSize (length x)))"
    by blast
  with lx have "prv_keyinfo_from_wif spec_networks (b58encode x)
              = Inl (BTClibValueError (WrongWifSize 35))"
    by simp
  then show "prv_keyinfo_from_wif spec_networks (b58encode (replicate 35 0x80))
       = Inl (BTClibValueError (WrongWifSize 35))"
    by (simp only: x_def)
next
  have "prv_keyinfo_from_wif spec_networks [] = Inl (BTClibValueError (NotEnoughBytesForChecksum 0))"
    by (simp add: prv_keyinfo_from_wif_def b58decode_empty)
  with prv_keyinfo_from_wif_checks [of spec_networks "[]"]
  show "prv_keyinfo_from_prv_key spec_networks (PrvKeyWif []) None None
       = Inl (BTClibValueError NotAPrvKey)"
    by blast
qed

lemma h160_from_address_example:
  "h160_from_address spec_networks (b58encode (0x00 # replicate 20 0x11))
     = Inr ([0x00], replicate 20 0x11, ''mainnet'', False)"
proof -
  define h where "h = replicate 20 (0x11::byte)"
  have "length (0x00 # h) = 21" by (simp add: h_def)
  then have "b58decode (strip (b58encode (0x00 # h))) (Some 21) = Inr (0x00 # h)"
    by (simp add: b58decode_encode)
  then have "h160_from_address spec_networks (b58encode (0x00 # h)) = Inr ([0x00], h, ''mainnet'', False)"
    by (simp add: h160_from_address_def spec_networks_def)
  then show ?thesis by (simp only: h_def)
qed

theorem h160_from_address_decodes_witness:
  "(\<exists>p. (''mainnet'', p) \<in> set spec_networks \<and> net_p2pkh p = [0x00])
   \<and> h160_from_address spec_networks (b58encode (0xf5 # replicate 20 0x11))
       = Inl (BTClibValueError (InvalidBase58AddressPrefix [0xf5]))
   \<and> h160_from_address spec_networks [] = Inl (BTClibValueError (NotEnoughBytesForChecksum 0))"
proof (intro conjI)
  define a where "a = b58encode (0x00 # replicate 20 (0x11::byte))"
  have "length (0x00 # replicate 20 (0x11::byte)) = 21" by simp
  then have d: "b58decode (strip a) (Some 21) = Inr (0x00 # replicate 20 0x11)"
    unfolding a_def by (simp add: b58decode_encode)
  have ex: "h160_from_address spec_networks a = Inr ([0x00], replicate 20 0x11, ''mainnet'', False)"
    unfolding a_def by (rule h160_from_address_example)
  from h160_from_address_decodes [of a spec_networks] d ex
  have "\<exists>p. (''mainnet'', p) \<in> set spec_networks \<and> (if False then net_p2sh p else net_p2pkh p) = [0x00]"
    by blast
  then show "\<exists>p. (''mainnet'', p) \<in> set spec_networks \<and> net_p2pkh p = [0x00]"
    by simp
next
  define b where "b = 0xf5 # replicate 20 (0x11::byte)"
  have lb: "length b = 21" by (simp add: b_def)
  have tb: "take 1 b = [0xf5]" by (simp add: b_def)
  from lb have d': "b58decode (strip (b58encode b)) (Some 21) = Inr b"
    by (simp add: b58decode_encode)
  have nm: "\<forall>(net, p) \<in> set spec_networks. net_p2pkh p \<noteq> take 1 b \<and> net_p2sh p \<noteq> take 1 b"
    unfolding tb by (simp add: spec_networks_def)
  from h160_from_address_decodes [of "b58encode b" spec_networks] d' nm
  have "h160_from_address spec_networks (b58encode b)
       = Inl (BTClibValueError (InvalidBase58AddressPrefix (take 1 b)))"
    by blast
  then show "h160_from_address spec_networks (b58encode (0xf5 # replicate 20 0x11))
       = Inl (BTClibValueError (InvalidBase58AddressPrefix [0xf5]))"
    by (simp only: tb) (simp only: b_def)
next
  have "b58decode (strip []) (Some 21) = Inl (BTClibValueError (NotEnoughBytesForChecksum 0))"
    by (simp add: b58decode_empty)
  with h160_from_address_decodes [of "[]" spec_networks]
  show "h160_from_address spec_networks [] = Inl (BTClibValueError (NotEnoughBytesForChecksum 0))"
    by blast
qed

end
